theory Spec2Isabelle
  imports Main "HOL-Library.Sublist"
begin

section \<open>Hotel staff notification: the ticket log and its operations\<close>

text \<open>
  A shallow embedding of \<^verbatim>\<open>hotel_staff_notification.py\<close>. The program keeps a list of
  notification dictionaries in one JSON file and reads the wall clock when it files or
  resolves a ticket. Both are made explicit: every operation takes the state of the
  backing file and the clock readings it makes, and returns either the exception that
  reaches its caller or its result together with the new state of the file.

  The console output and the notification sound of \<^verbatim>\<open>notify_staff\<close> change neither the
  file nor the value returned and are left out. A write of the file is taken to succeed,
  and \<^verbatim>\<open>json.load\<close> is taken to give back the list that \<^verbatim>\<open>json.dump\<close> wrote.
\<close>

subsection \<open>The clock\<close>

text \<open>
  One reading of \<^verbatim>\<open>datetime.now()\<close>. The year of a \<^verbatim>\<open>datetime\<close> has at most four
  digits, the microseconds at most six, the other fields at most two.
\<close>

record datetime =
  year :: nat
  month :: nat
  day :: nat
  hour :: nat
  minute :: nat
  second :: nat
  microsecond :: nat

definition digit :: "nat \<Rightarrow> char" where
  "digit d = ''0123456789'' ! (d mod 10)"

definition pad2 :: "nat \<Rightarrow> string" where
  "pad2 n = [digit (n div 10), digit n]"

definition pad4 :: "nat \<Rightarrow> string" where
  "pad4 n = [digit (n div 1000), digit (n div 100), digit (n div 10), digit n]"

definition pad6 :: "nat \<Rightarrow> string" where
  "pad6 n = [digit (n div 100000), digit (n div 10000), digit (n div 1000),
             digit (n div 100), digit (n div 10), digit n]"

text \<open>\<^verbatim>\<open>strftime('%Y%m%d%H%M%S')\<close>: the fields down to the second, zero padded.\<close>

definition strftime_YmdHMS :: "datetime \<Rightarrow> string" where
  "strftime_YmdHMS d =
     pad4 (year d) @ pad2 (month d) @ pad2 (day d) @
     pad2 (hour d) @ pad2 (minute d) @ pad2 (second d)"

text \<open>\<^verbatim>\<open>isoformat()\<close>: the microseconds are printed unless they are zero.\<close>

definition isoformat :: "datetime \<Rightarrow> string" where
  "isoformat d =
     pad4 (year d) @ ''-'' @ pad2 (month d) @ ''-'' @ pad2 (day d) @ ''T'' @
     pad2 (hour d) @ '':'' @ pad2 (minute d) @ '':'' @ pad2 (second d) @
     (if microsecond d = 0 then [] else ''.'' @ pad6 (microsecond d))"

definition get_timestamp :: "datetime \<Rightarrow> string" where
  "get_timestamp now = isoformat now"

subsection \<open>Notifications and the backing file\<close>

text \<open>
  A notification is a dictionary from field names to strings; \<^verbatim>\<open>n.get(k)\<close> is \<open>n k\<close>,
  which is \<open>None\<close> for a key that is not there.
\<close>

type_synonym notification = "string \<rightharpoonup> string"

text \<open>
  The states of \<^verbatim>\<open>hotel_notifications.json\<close>, by what reading it does:
  the path does not exist; opening or reading it fails with an \<^verbatim>\<open>OSError\<close>; its bytes
  are not UTF-8, so that reading the text fails; its text is not JSON; it holds a list
  of notifications. The last are the documents that the program writes: JSON arrays of
  objects whose values are strings. A file with any other JSON document is not a state
  of the model.
\<close>

datatype file_state =
    Absent
  | Unreadable
  | Bad_Encoding
  | Bad_JSON
  | Stored "notification list"

text \<open>
  The exceptions of the model. \<^verbatim>\<open>IOError\<close> is Python's alias of \<^verbatim>\<open>OSError\<close>.
  \<^verbatim>\<open>JSONDecodeError\<close> and \<^verbatim>\<open>UnicodeDecodeError\<close> are two different subclasses of
  \<^verbatim>\<open>ValueError\<close>.
\<close>

datatype py_exception = JSONDecodeError | IOError | UnicodeDecodeError

definition file_exists :: "file_state \<Rightarrow> bool" where
  "file_exists fs = (fs \<noteq> Absent)"

text \<open>
  \<^verbatim>\<open>with open(NOTIFICATION_LOG_FILE, "r", encoding="utf-8") as f: json.load(f)\<close>

  \<^verbatim>\<open>open\<close> raises an \<^verbatim>\<open>OSError\<close> for a path it cannot open. \<^verbatim>\<open>json.load\<close> first reads
  the whole text, which is decoded strictly: bytes that are not UTF-8 raise a
  \<^verbatim>\<open>UnicodeDecodeError\<close>. Then it parses the text, and raises a \<^verbatim>\<open>JSONDecodeError\<close> when
  the text is not JSON.
\<close>

fun json_load :: "file_state \<Rightarrow> py_exception + notification list" where
  "json_load Absent = Inl IOError"
| "json_load Unreadable = Inl IOError"
| "json_load Bad_Encoding = Inl UnicodeDecodeError"
| "json_load Bad_JSON = Inl JSONDecodeError"
| "json_load (Stored ns) = Inr ns"

text \<open>
  \<^verbatim>\<open>with open(NOTIFICATION_LOG_FILE, "w", encoding="utf-8") as f: json.dump(ns, f, ...)\<close>
\<close>

definition json_dump :: "notification list \<Rightarrow> file_state" where
  "json_dump ns = Stored ns"

definition load_notifications :: "file_state \<Rightarrow> py_exception + notification list" where
  "load_notifications fs =
     (if file_exists fs then
        (case json_load fs of
           Inr ns \<Rightarrow> Inr ns
         | Inl e \<Rightarrow> if e = JSONDecodeError \<or> e = IOError then Inr [] else Inl e)
      else Inr [])"

definition save_notification :: "notification \<Rightarrow> file_state \<Rightarrow> py_exception + file_state" where
  "save_notification notification fs =
     (case load_notifications fs of
        Inl e \<Rightarrow> Inl e
      | Inr loaded \<Rightarrow>
          let notifications = loaded @ [notification];
              notifications =
                (if length notifications > 1000
                 then drop (length notifications - 1000) notifications
                 else notifications)
          in Inr (json_dump notifications))"

subsection \<open>Filing, listing and resolving\<close>

text \<open>The dictionaries the tools return.\<close>

record outcome =
  success :: bool
  message :: string

record confirmation = outcome +
  ticket_number :: string
  estimated_response_time :: string

record status_report =
  pending_count :: nat
  pending_tickets :: "string option list"

text \<open>The dictionary literal of \<^verbatim>\<open>notify_staff\<close>.\<close>

definition new_notification ::
  "string \<Rightarrow> string \<Rightarrow> string \<Rightarrow> string \<Rightarrow> string \<Rightarrow> string \<Rightarrow> string \<Rightarrow> notification" where
  "new_notification tn ts reason guest_language priority location additional_info =
     [''ticket_number'' \<mapsto> tn,
      ''timestamp'' \<mapsto> ts,
      ''reason'' \<mapsto> reason,
      ''guest_language'' \<mapsto> guest_language,
      ''priority'' \<mapsto> priority,
      ''location'' \<mapsto> location,
      ''additional_info'' \<mapsto> additional_info,
      ''status'' \<mapsto> ''pending'']"

text \<open>
  \<open>now1\<close> is the clock reading that makes the ticket number, \<open>now2\<close> the later one that
  \<^verbatim>\<open>get_timestamp\<close> makes.
\<close>

definition notify_staff ::
  "datetime \<Rightarrow> datetime \<Rightarrow> string \<Rightarrow> string \<Rightarrow> string \<Rightarrow> string \<Rightarrow> string \<Rightarrow> file_state
     \<Rightarrow> py_exception + confirmation \<times> file_state" where
  "notify_staff now1 now2 reason guest_language priority location additional_info fs =
     (let tn = ''TKT-'' @ strftime_YmdHMS now1;
          notification =
            new_notification tn (get_timestamp now2)
              reason guest_language priority location additional_info
      in case save_notification notification fs of
           Inl e \<Rightarrow> Inl e
         | Inr fs' \<Rightarrow>
             Inr (\<lparr>success = True,
                   message = ''Staff has been notified. Ticket number: '' @ tn,
                   ticket_number = tn,
                   estimated_response_time =
                     (if priority \<noteq> ''urgent'' then ''2-3 minutes'' else ''1 minute'')\<rparr>,
                  fs'))"

definition get_pending_notifications :: "file_state \<Rightarrow> py_exception + notification list" where
  "get_pending_notifications fs =
     (case load_notifications fs of
        Inl e \<Rightarrow> Inl e
      | Inr notifications \<Rightarrow> Inr (filter (\<lambda>n. n ''status'' = Some ''pending'') notifications))"

text \<open>
  The loop of \<^verbatim>\<open>mark_notification_resolved\<close>: the first notification whose ticket number
  matches is updated and the loop is left; \<open>None\<close> when the loop runs to its end.
\<close>

fun resolve_first :: "string \<Rightarrow> string \<Rightarrow> notification list \<Rightarrow> notification list option" where
  "resolve_first tn ts [] = None"
| "resolve_first tn ts (n # ns) =
     (if n ''ticket_number'' = Some tn
      then Some (n(''status'' \<mapsto> ''resolved'', ''resolved_at'' \<mapsto> ts) # ns)
      else map_option ((#) n) (resolve_first tn ts ns))"

definition mark_notification_resolved ::
  "datetime \<Rightarrow> string \<Rightarrow> file_state \<Rightarrow> py_exception + outcome \<times> file_state" where
  "mark_notification_resolved now tn fs =
     (case load_notifications fs of
        Inl e \<Rightarrow> Inl e
      | Inr notifications \<Rightarrow>
          (case resolve_first tn (get_timestamp now) notifications of
             Some notifications' \<Rightarrow>
               Inr (\<lparr>success = True, message = ''Ticket '' @ tn @ '' marked as resolved''\<rparr>,
                    json_dump notifications')
           | None \<Rightarrow>
               Inr (\<lparr>success = False, message = ''Ticket '' @ tn @ '' not found''\<rparr>, fs)))"

text \<open>The report of \<^verbatim>\<open>get_staff_status\<close>, before it is serialised.\<close>

definition get_staff_status :: "file_state \<Rightarrow> py_exception + status_report" where
  "get_staff_status fs =
     (case get_pending_notifications fs of
        Inl e \<Rightarrow> Inl e
      | Inr pending \<Rightarrow>
          Inr \<lparr>pending_count = length pending,
               pending_tickets =
                 map (\<lambda>n. n ''ticket_number'') (drop (length pending - 5) pending)\<rparr>)"

subsection \<open>Sequences of calls\<close>

text \<open>
  One call of \<^verbatim>\<open>notify_staff\<close>: its two clock readings and its five arguments.
\<close>

record request =
  req_now1 :: datetime
  req_now2 :: datetime
  req_reason :: string
  req_guest_language :: string
  req_priority :: string
  req_location :: string
  req_additional_info :: string

definition file_request ::
  "request \<Rightarrow> file_state \<Rightarrow> py_exception + confirmation \<times> file_state" where
  "file_request r fs =
     notify_staff (req_now1 r) (req_now2 r) (req_reason r) (req_guest_language r)
       (req_priority r) (req_location r) (req_additional_info r) fs"

text \<open>The notification that the call \<open>r\<close> builds.\<close>

definition ticket_of :: "request \<Rightarrow> notification" where
  "ticket_of r =
     new_notification (''TKT-'' @ strftime_YmdHMS (req_now1 r)) (get_timestamp (req_now2 r))
       (req_reason r) (req_guest_language r) (req_priority r) (req_location r)
       (req_additional_info r)"

text \<open>The calls of a list made one after the other; the first exception ends the run.\<close>

fun file_tickets :: "request list \<Rightarrow> file_state \<Rightarrow> py_exception + file_state" where
  "file_tickets [] fs = Inr fs"
| "file_tickets (r # rs) fs =
     (case file_request r fs of
        Inl e \<Rightarrow> Inl e
      | Inr (c, fs') \<Rightarrow> file_tickets rs fs')"

text \<open>
  The states of the file that the two writing operations can produce, starting with a
  file that is read as the empty history.
\<close>

inductive reachable :: "file_state \<Rightarrow> bool" where
  initial: "load_notifications fs = Inr [] \<Longrightarrow> reachable fs"
| filed:
    "reachable fs \<Longrightarrow>
     notify_staff now1 now2 reason guest_language priority location additional_info fs
       = Inr (c, fs') \<Longrightarrow>
     reachable fs'"
| resolved:
    "reachable fs \<Longrightarrow> mark_notification_resolved now tn fs = Inr (res, fs') \<Longrightarrow>
     reachable fs'"

text \<open>Sample inputs: two clock readings within one second, and a call.\<close>

definition noon :: datetime where
  "noon = \<lparr>year = 2024, month = 1, day = 1, hour = 12, minute = 0, second = 0,
           microsecond = 100000\<rparr>"

definition noon_later :: datetime where
  "noon_later = \<lparr>year = 2024, month = 1, day = 1, hour = 12, minute = 0, second = 0,
                 microsecond = 700000\<rparr>"

definition check_in :: request where
  "check_in = \<lparr>req_now1 = noon, req_now2 = noon, req_reason = ''Check-in'',
               req_guest_language = ''Korean'', req_priority = ''urgent'',
               req_location = ''Front Desk Kiosk'', req_additional_info = []\<rparr>"

text \<open>A file with one ticket, filed by \<open>check_in\<close> and resolved within the same second.\<close>

definition resolved_store :: file_state where
  "resolved_store =
     Stored [(ticket_of check_in)(''status'' \<mapsto> ''resolved'',
                                  ''resolved_at'' \<mapsto> get_timestamp noon_later)]"

text \<open>
  The two states of a ticket: pending with no \<^verbatim>\<open>resolved_at\<close>, or resolved with one.
\<close>

definition lifecycle_ok :: "notification \<Rightarrow> bool" where
  "lifecycle_ok n \<longleftrightarrow>
     (n ''status'' = Some ''pending'' \<or> n ''status'' = Some ''resolved'')
     \<and> (n ''resolved_at'' \<noteq> None \<longleftrightarrow> n ''status'' = Some ''resolved'')"

section \<open>Properties\<close>

subsection \<open>Reading the file\<close>

lemma load_notifications_simps:
  "load_notifications Absent = Inr []"
  "load_notifications Unreadable = Inr []"
  "load_notifications Bad_JSON = Inr []"
  "load_notifications Bad_Encoding = Inl UnicodeDecodeError"
  "load_notifications (Stored ns) = Inr ns"
  by (simp_all add: load_notifications_def file_exists_def)

lemma load_notifications_Inl:
  "load_notifications fs = Inl e \<longleftrightarrow> fs = Bad_Encoding \<and> e = UnicodeDecodeError"
  by (cases fs) (auto simp: load_notifications_simps)

text \<open>
  Claim C9. A file that is absent, that cannot be opened or that holds text that is not
  JSON is read as the empty list, and a stored list is returned as it is
  (\<open>load_notifications_simps\<close>). The claim fails for a file whose bytes are not UTF-8,
  which is not valid serialised JSON either: the \<^verbatim>\<open>UnicodeDecodeError\<close> raised while the
  text is read is not among the exceptions that \<^verbatim>\<open>load_notifications\<close> catches, and
  reaches the caller.
\<close>

theorem load_undecodable_file:
  "load_notifications Bad_Encoding = Inl UnicodeDecodeError
   \<and> load_notifications Bad_Encoding \<noteq> Inr []"
  by (simp add: load_notifications_def file_exists_def)

subsection \<open>Filing a ticket\<close>

lemma save_notification_eq:
  "load_notifications fs = Inr old \<Longrightarrow>
   save_notification n fs = Inr (Stored (drop (Suc (length old) - 1000) (old @ [n])))"
  by (simp add: save_notification_def json_dump_def Let_def)

lemma notify_staff_eq:
  "load_notifications fs = Inr old \<Longrightarrow>
   notify_staff now1 now2 r g p l a fs =
     Inr (\<lparr>success = True,
           message = ''Staff has been notified. Ticket number: '' @ ''TKT-'' @ strftime_YmdHMS now1,
           ticket_number = ''TKT-'' @ strftime_YmdHMS now1,
           estimated_response_time = (if p \<noteq> ''urgent'' then ''2-3 minutes'' else ''1 minute'')\<rparr>,
          Stored (drop (Suc (length old) - 1000)
             (old @ [new_notification (''TKT-'' @ strftime_YmdHMS now1) (get_timestamp now2)
                       r g p l a])))"
  by (simp add: notify_staff_def save_notification_eq Let_def)

lemma new_notification_fields:
  "new_notification tn ts r g p l a ''ticket_number'' = Some tn"
  "new_notification tn ts r g p l a ''timestamp'' = Some ts"
  "new_notification tn ts r g p l a ''reason'' = Some r"
  "new_notification tn ts r g p l a ''guest_language'' = Some g"
  "new_notification tn ts r g p l a ''priority'' = Some p"
  "new_notification tn ts r g p l a ''location'' = Some l"
  "new_notification tn ts r g p l a ''additional_info'' = Some a"
  "new_notification tn ts r g p l a ''status'' = Some ''pending''"
  "new_notification tn ts r g p l a ''resolved_at'' = None"
  by (simp_all add: new_notification_def)

lemma same_second: "strftime_YmdHMS noon_later = strftime_YmdHMS noon"
  by (simp add: strftime_YmdHMS_def noon_def noon_later_def)

lemma stamp_noon: "strftime_YmdHMS noon = ''20240101120000''"
  by (simp add: strftime_YmdHMS_def noon_def pad2_def pad4_def digit_def)

lemma ticket_of_pending: "ticket_of r ''status'' = Some ''pending''"
  by (simp add: ticket_of_def new_notification_fields)

lemma ticket_of_check_in_id: "ticket_of check_in ''ticket_number'' = Some ''TKT-20240101120000''"
  by (simp add: ticket_of_def check_in_def new_notification_fields stamp_noon)

text \<open>
  Claim C1. Whenever the stored history can be read, \<^verbatim>\<open>notify_staff\<close> returns a
  confirmation, and its estimated response time is "1 minute" when the priority is
  exactly "urgent" and "2-3 minutes" for every other priority string.
\<close>

theorem notify_staff_response_time:
  assumes "load_notifications fs = Inr old"
  shows "\<exists>c fs'. notify_staff now1 now2 reason guest_language priority location additional_info fs
                    = Inr (c, fs')
           \<and> estimated_response_time c
               = (if priority = ''urgent'' then ''1 minute'' else ''2-3 minutes'')"
  using assms by (simp add: notify_staff_def save_notification_def Let_def)

theorem notify_staff_response_time_witness:
  "load_notifications Absent = Inr []
   \<and> (\<exists>c fs'. notify_staff noon noon ''Check-in'' ''Korean'' ''urgent'' ''Front Desk Kiosk'' [] Absent
                  = Inr (c, fs')
         \<and> estimated_response_time c = ''1 minute'')"
  using notify_staff_response_time [of Absent "[]" noon noon "''Check-in''" "''Korean''"
      "''urgent''" "''Front Desk Kiosk''" "[]"]
  by (simp add: load_notifications_simps)

text \<open>
  Claim C6. After a ticket is filed, loading the file again gives a list whose last
  record carries the ticket number of the confirmation and the reason, guest language,
  location, additional information and priority that were passed to \<^verbatim>\<open>notify_staff\<close>.
\<close>

theorem filed_ticket_round_trip:
  assumes "load_notifications fs = Inr old"
  shows "\<exists>c fs' ns.
           notify_staff now1 now2 reason guest_language priority location additional_info fs
             = Inr (c, fs')
         \<and> load_notifications fs' = Inr ns \<and> ns \<noteq> []
         \<and> last ns ''ticket_number'' = Some (ticket_number c)
         \<and> last ns ''reason'' = Some reason
         \<and> last ns ''guest_language'' = Some guest_language
         \<and> last ns ''location'' = Some location
         \<and> last ns ''additional_info'' = Some additional_info
         \<and> last ns ''priority'' = Some priority"
  by (simp add: notify_staff_eq [OF assms] load_notifications_simps new_notification_fields
        del: drop_append)

theorem filed_ticket_round_trip_witness:
  "load_notifications Absent = Inr []
   \<and> (\<exists>c fs' ns.
         notify_staff noon noon ''Check-in'' ''Korean'' ''urgent'' ''Front Desk Kiosk'' ''late'' Absent
           = Inr (c, fs')
       \<and> load_notifications fs' = Inr ns \<and> ns \<noteq> []
       \<and> last ns ''reason'' = Some ''Check-in''
       \<and> last ns ''guest_language'' = Some ''Korean''
       \<and> last ns ''location'' = Some ''Front Desk Kiosk''
       \<and> last ns ''additional_info'' = Some ''late''
       \<and> last ns ''priority'' = Some ''urgent'')"
proof -
  have h: "load_notifications Absent = Inr []" by (simp add: load_notifications_simps)
  from filed_ticket_round_trip [OF h, of noon noon "''Check-in''" "''Korean''" "''urgent''"
      "''Front Desk Kiosk''" "''late''"] h
  show ?thesis by blast
qed

subsection \<open>Resolving a ticket\<close>

lemma resolve_first_None:
  "resolve_first tn ts ns = None \<longleftrightarrow> (\<forall>n\<in>set ns. n ''ticket_number'' \<noteq> Some tn)"
  by (induction ns) auto

lemma resolve_first_Some:
  "resolve_first tn ts ns = Some ns' \<Longrightarrow>
   \<exists>i<length ns. (ns ! i) ''ticket_number'' = Some tn
      \<and> (\<forall>j<i. (ns ! j) ''ticket_number'' \<noteq> Some tn)
      \<and> ns' = ns[i := (ns ! i)(''status'' \<mapsto> ''resolved'', ''resolved_at'' \<mapsto> ts)]"
proof (induction ns arbitrary: ns')
  case Nil
  then show ?case by simp
next
  case (Cons n ns)
  show ?case
  proof (cases "n ''ticket_number'' = Some tn")
    case True
    with Cons.prems have "ns' = n(''status'' \<mapsto> ''resolved'', ''resolved_at'' \<mapsto> ts) # ns"
      by simp
    with True show ?thesis by (intro exI[of _ 0]) (simp del: fun_upd_apply)
  next
    case False
    with Cons.prems obtain ms where ms: "resolve_first tn ts ns = Some ms" "ns' = n # ms"
      by auto
    from Cons.IH[OF ms(1)] obtain i where i: "i < length ns"
      "(ns ! i) ''ticket_number'' = Some tn"
      "\<forall>j<i. (ns ! j) ''ticket_number'' \<noteq> Some tn"
      "ms = ns[i := (ns ! i)(''status'' \<mapsto> ''resolved'', ''resolved_at'' \<mapsto> ts)]"
      by blast
    have "\<forall>j<Suc i. ((n # ns) ! j) ''ticket_number'' \<noteq> Some tn"
      using False i(3) by (auto simp: less_Suc_eq_0_disj)
    with i ms(2) show ?thesis by (intro exI[of _ "Suc i"]) (simp del: fun_upd_apply)
  qed
qed

lemma resolve_first_append:
  "\<forall>n\<in>set ms. n ''ticket_number'' \<noteq> Some tn \<Longrightarrow>
   resolve_first tn ts (ms @ xs)
     = (case resolve_first tn ts xs of None \<Rightarrow> None | Some ys \<Rightarrow> Some (ms @ ys))"
  by (induction ms) (auto split: option.splits)

lemma mark_notification_resolved_found:
  assumes "load_notifications fs = Inr ns"
    and "\<exists>n\<in>set ns. n ''ticket_number'' = Some tn"
  shows "\<exists>i<length ns. (ns ! i) ''ticket_number'' = Some tn
      \<and> (\<forall>j<i. (ns ! j) ''ticket_number'' \<noteq> Some tn)
      \<and> mark_notification_resolved now tn fs =
          Inr (\<lparr>success = True, message = ''Ticket '' @ tn @ '' marked as resolved''\<rparr>,
               Stored (ns[i := (ns ! i)(''status'' \<mapsto> ''resolved'',
                                        ''resolved_at'' \<mapsto> get_timestamp now)]))"
proof -
  from assms(2) have "resolve_first tn (get_timestamp now) ns \<noteq> None"
    by (simp add: resolve_first_None)
  then obtain ns' where ns': "resolve_first tn (get_timestamp now) ns = Some ns'"
    by blast
  from resolve_first_Some[OF ns'] obtain i where i: "i < length ns"
      "(ns ! i) ''ticket_number'' = Some tn"
      "\<forall>j<i. (ns ! j) ''ticket_number'' \<noteq> Some tn"
      "ns' = ns[i := (ns ! i)(''status'' \<mapsto> ''resolved'', ''resolved_at'' \<mapsto> get_timestamp now)]"
    by blast
  have "mark_notification_resolved now tn fs =
          Inr (\<lparr>success = True, message = ''Ticket '' @ tn @ '' marked as resolved''\<rparr>, Stored ns')"
    using assms(1) ns' by (simp add: mark_notification_resolved_def json_dump_def)
  with i show ?thesis by blast
qed

lemma mark_notification_resolved_cases:
  assumes "load_notifications fs = Inr ns"
    and "mark_notification_resolved now tn fs = Inr (res, fs')"
  shows "fs' = fs \<or>
     (\<exists>i<length ns. fs' = Stored (ns[i := (ns ! i)(''status'' \<mapsto> ''resolved'',
                                         ''resolved_at'' \<mapsto> get_timestamp now)]))"
proof (cases "resolve_first tn (get_timestamp now) ns")
  case None
  with assms show ?thesis by (simp add: mark_notification_resolved_def)
next
  case (Some ns')
  from resolve_first_Some[OF Some] obtain i where "i < length ns"
    "ns' = ns[i := (ns ! i)(''status'' \<mapsto> ''resolved'', ''resolved_at'' \<mapsto> get_timestamp now)]"
    by blast
  moreover from assms Some have "fs' = Stored ns'"
    by (simp add: mark_notification_resolved_def json_dump_def)
  ultimately show ?thesis by blast
qed

text \<open>
  Claim C5. When no ticket of the loaded store carries the given ticket number,
  \<^verbatim>\<open>mark_notification_resolved\<close> raises nothing: it returns the failure result whose
  message names the ticket number, and the file is exactly as it was.
\<close>

theorem resolve_unknown_ticket:
  assumes "load_notifications fs = Inr ns"
    and "\<forall>n\<in>set ns. n ''ticket_number'' \<noteq> Some tn"
  shows "mark_notification_resolved now tn fs
           = Inr (\<lparr>success = False, message = ''Ticket '' @ tn @ '' not found''\<rparr>, fs)"
proof -
  from assms(2) have "resolve_first tn (get_timestamp now) ns = None"
    by (simp add: resolve_first_None)
  with assms(1) show ?thesis
    by (simp add: mark_notification_resolved_def)
qed

theorem resolve_unknown_ticket_witness:
  "load_notifications (Stored [ticket_of check_in]) = Inr [ticket_of check_in]
   \<and> mark_notification_resolved noon ''TKT-0'' (Stored [ticket_of check_in])
       = Inr (\<lparr>success = False, message = ''Ticket TKT-0 not found''\<rparr>,
              Stored [ticket_of check_in])"
  using resolve_unknown_ticket [of "Stored [ticket_of check_in]" "[ticket_of check_in]"
      "''TKT-0''" noon]
  by (simp add: load_notifications_simps ticket_of_check_in_id)

text \<open>
  Claim C10. A successful \<^verbatim>\<open>mark_notification_resolved\<close> rewrites the file with the
  same list but for one position, the first ticket whose ticket number matches: the list
  is as long as before, every other ticket (a later one with the same ticket number
  too) is the same at the same position, and of the matched ticket only the fields
  \<^verbatim>\<open>status\<close> and \<^verbatim>\<open>resolved_at\<close> have changed.
\<close>

theorem resolve_frame:
  assumes "load_notifications fs = Inr ns"
    and "\<exists>n\<in>set ns. n ''ticket_number'' = Some tn"
  shows "\<exists>i ns'. i < length ns
      \<and> (ns ! i) ''ticket_number'' = Some tn
      \<and> (\<forall>j<i. (ns ! j) ''ticket_number'' \<noteq> Some tn)
      \<and> mark_notification_resolved now tn fs =
          Inr (\<lparr>success = True, message = ''Ticket '' @ tn @ '' marked as resolved''\<rparr>,
               Stored ns')
      \<and> length ns' = length ns
      \<and> (\<forall>j<length ns. j \<noteq> i \<longrightarrow> ns' ! j = ns ! j)
      \<and> (\<forall>k. k \<noteq> ''status'' \<and> k \<noteq> ''resolved_at'' \<longrightarrow> (ns' ! i) k = (ns ! i) k)
      \<and> (ns' ! i) ''status'' = Some ''resolved''
      \<and> (ns' ! i) ''resolved_at'' = Some (get_timestamp now)"
proof -
  from mark_notification_resolved_found[OF assms, of now] obtain i where i: "i < length ns"
      "(ns ! i) ''ticket_number'' = Some tn"
      "\<forall>j<i. (ns ! j) ''ticket_number'' \<noteq> Some tn"
      "mark_notification_resolved now tn fs =
          Inr (\<lparr>success = True, message = ''Ticket '' @ tn @ '' marked as resolved''\<rparr>,
               Stored (ns[i := (ns ! i)(''status'' \<mapsto> ''resolved'',
                                        ''resolved_at'' \<mapsto> get_timestamp now)]))"
    by blast
  let ?ns' = "ns[i := (ns ! i)(''status'' \<mapsto> ''resolved'', ''resolved_at'' \<mapsto> get_timestamp now)]"
  have "length ?ns' = length ns" by simp
  moreover have "\<forall>j<length ns. j \<noteq> i \<longrightarrow> ?ns' ! j = ns ! j" by simp
  moreover have "\<forall>k. k \<noteq> ''status'' \<and> k \<noteq> ''resolved_at'' \<longrightarrow> (?ns' ! i) k = (ns ! i) k"
    using i(1) by simp
  moreover have "(?ns' ! i) ''status'' = Some ''resolved''" using i(1) by simp
  moreover have "(?ns' ! i) ''resolved_at'' = Some (get_timestamp now)" using i(1) by simp
  ultimately show ?thesis using i by blast
qed

theorem resolve_frame_witness:
  "load_notifications (Stored [ticket_of check_in, ticket_of check_in])
     = Inr [ticket_of check_in, ticket_of check_in]
   \<and> ticket_of check_in ''ticket_number'' = Some ''TKT-20240101120000''
   \<and> (\<exists>ns'. mark_notification_resolved noon_later ''TKT-20240101120000''
               (Stored [ticket_of check_in, ticket_of check_in])
             = Inr (\<lparr>success = True,
                     message = ''Ticket TKT-20240101120000 marked as resolved''\<rparr>, Stored ns')
         \<and> length ns' = 2
         \<and> (ns' ! 0) ''status'' = Some ''resolved''
         \<and> (ns' ! 0) ''reason'' = Some ''Check-in''
         \<and> ns' ! 1 = ticket_of check_in)"
proof -
  let ?ns = "[ticket_of check_in, ticket_of check_in]"
  let ?tn = "''TKT-20240101120000''"
  have h1: "load_notifications (Stored ?ns) = Inr ?ns"
    by (rule load_notifications_simps)
  have h2: "\<exists>n\<in>set ?ns. n ''ticket_number'' = Some ?tn"
    by (simp add: ticket_of_check_in_id)
  from resolve_frame[OF h1 h2, of noon_later] obtain i ns' where
    f: "i < length ?ns" "\<forall>j<i. (?ns ! j) ''ticket_number'' \<noteq> Some ?tn"
       "mark_notification_resolved noon_later ?tn (Stored ?ns) =
          Inr (\<lparr>success = True, message = ''Ticket '' @ ?tn @ '' marked as resolved''\<rparr>,
               Stored ns')"
       "length ns' = length ?ns"
       "\<forall>j<length ?ns. j \<noteq> i \<longrightarrow> ns' ! j = ?ns ! j"
       "\<forall>k. k \<noteq> ''status'' \<and> k \<noteq> ''resolved_at'' \<longrightarrow> (ns' ! i) k = (?ns ! i) k"
       "(ns' ! i) ''status'' = Some ''resolved''"
    by (elim exE conjE) (rule that; assumption)
  have i0: "i = 0"
  proof (rule ccontr)
    assume "i \<noteq> 0"
    then have "0 < i" by simp
    from f(2)[rule_format, OF this] show False by (simp add: ticket_of_check_in_id)
  qed
  have "(ns' ! 0) ''reason'' = (?ns ! 0) ''reason''"
    using f(6) i0 by simp
  then have reason: "(ns' ! 0) ''reason'' = Some ''Check-in''"
    by (simp add: ticket_of_def check_in_def new_notification_fields)
  have other: "ns' ! 1 = ticket_of check_in" using f(5) i0 by simp
  have len: "length ns' = 2" using f(4) by simp
  have st: "(ns' ! 0) ''status'' = Some ''resolved''" using f(7) i0 by simp
  from f(3) have m: "mark_notification_resolved noon_later ?tn (Stored ?ns) =
          Inr (\<lparr>success = True, message = ''Ticket TKT-20240101120000 marked as resolved''\<rparr>,
               Stored ns')" by simp
  from h1 m len st reason other show ?thesis
    by (intro conjI exI[of _ ns'] ticket_of_check_in_id)
qed

text \<open>
  Resolving the ticket that was just filed does what is expected when no older ticket of
  the store has the same ticket number.
\<close>

lemma not_among_pending:
  "\<forall>n\<in>set xs. P n \<longrightarrow> f n \<noteq> v \<Longrightarrow> v \<notin> set (map f (drop k (filter P xs)))"
  by (auto dest!: in_set_dropD)

lemma resolve_just_filed_unique:
  assumes "load_notifications fs = Inr old"
    and "\<forall>n\<in>set old. n ''ticket_number'' \<noteq> Some (''TKT-'' @ strftime_YmdHMS now1)"
  shows "\<exists>c fs1 res fs2 ns rep.
           notify_staff now1 now2 r g p l a fs = Inr (c, fs1)
         \<and> mark_notification_resolved now (ticket_number c) fs1 = Inr (res, fs2)
         \<and> success res
         \<and> load_notifications fs2 = Inr ns \<and> ns \<noteq> []
         \<and> last ns ''reason'' = Some r
         \<and> last ns ''status'' = Some ''resolved''
         \<and> last ns ''resolved_at'' = Some (get_timestamp now)
         \<and> get_staff_status fs2 = Inr rep
         \<and> Some (ticket_number c) \<notin> set (pending_tickets rep)"
proof -
  define tn where "tn = ''TKT-'' @ strftime_YmdHMS now1"
  define t where "t = new_notification tn (get_timestamp now2) r g p l a"
  define ms where "ms = drop (Suc (length old) - 1000) old"
  define t' where "t' = t(''status'' \<mapsto> ''resolved'', ''resolved_at'' \<mapsto> get_timestamp now)"
  define c where "c = \<lparr>success = True,
       message = ''Staff has been notified. Ticket number: '' @ tn,
       ticket_number = tn,
       estimated_response_time = (if p \<noteq> ''urgent'' then ''2-3 minutes'' else ''1 minute'')\<rparr>"
  define pend where "pend = filter (\<lambda>n. n ''status'' = Some ''pending'') (ms @ [t'])"
  define rep where "rep = \<lparr>pending_count = length pend,
       pending_tickets = map (\<lambda>n. n ''ticket_number'') (drop (length pend - 5) pend)\<rparr>"
  have filed: "notify_staff now1 now2 r g p l a fs = Inr (c, Stored (ms @ [t]))"
    by (simp add: notify_staff_eq[OF assms(1)] c_def tn_def t_def ms_def)
  have ms: "\<forall>n\<in>set ms. n ''ticket_number'' \<noteq> Some tn"
    using assms(2) unfolding ms_def tn_def by (auto dest!: in_set_dropD)
  have t: "t ''ticket_number'' = Some tn" "t ''reason'' = Some r"
    by (simp_all add: t_def new_notification_fields)
  have t': "t' ''reason'' = Some r" "t' ''status'' = Some ''resolved''"
     "t' ''resolved_at'' = Some (get_timestamp now)"
    by (simp_all add: t'_def t)
  have "resolve_first tn (get_timestamp now) [t] = Some [t']"
    by (simp add: t t'_def del: fun_upd_apply)
  then have "resolve_first tn (get_timestamp now) (ms @ [t]) = Some (ms @ [t'])"
    by (simp only: resolve_first_append[OF ms] option.case)
  then have mark: "mark_notification_resolved now (ticket_number c) (Stored (ms @ [t]))
      = Inr (\<lparr>success = True, message = ''Ticket '' @ tn @ '' marked as resolved''\<rparr>,
             Stored (ms @ [t']))"
    by (simp add: mark_notification_resolved_def load_notifications_simps json_dump_def c_def)
  have loaded: "load_notifications (Stored (ms @ [t'])) = Inr (ms @ [t'])"
    by (rule load_notifications_simps)
  have status: "get_staff_status (Stored (ms @ [t'])) = Inr rep"
    by (simp only: get_staff_status_def get_pending_notifications_def load_notifications_simps
         sum.case rep_def pend_def)
  have "\<forall>n\<in>set (ms @ [t']). n ''status'' = Some ''pending'' \<longrightarrow> n ''ticket_number'' \<noteq> Some tn"
    using ms t'(2) by auto
  then have "Some tn \<notin> set (map (\<lambda>n. n ''ticket_number'') (drop (length pend - 5) pend))"
    unfolding pend_def by (rule not_among_pending)
  then have notin: "Some (ticket_number c) \<notin> set (pending_tickets rep)"
    by (simp add: rep_def c_def)
  have "success \<lparr>success = True, message = ''Ticket '' @ tn @ '' marked as resolved''\<rparr>"
    by simp
  moreover have "ms @ [t'] \<noteq> []" by simp
  moreover have "last (ms @ [t']) ''reason'' = Some r"
    "last (ms @ [t']) ''status'' = Some ''resolved''"
    "last (ms @ [t']) ''resolved_at'' = Some (get_timestamp now)"
    by (simp_all add: t')
  ultimately show ?thesis using filed mark loaded status notin by blast
qed

text \<open>
  Claim C2. The claim fails when two tickets are filed within one second: both get the
  ticket number \<^verbatim>\<open>TKT-20240101120000\<close>, and resolving the number that the second call
  returned marks the first ticket. The ticket that was just filed stays pending, has no
  \<^verbatim>\<open>resolved_at\<close>, and \<^verbatim>\<open>get_staff_status\<close> still lists its number.
\<close>

theorem resolve_just_filed_collision:
  "\<exists>c1 fs1 c2 fs2 res fs3 ns.
      notify_staff noon noon ''Check-in'' ''Korean'' ''urgent'' ''Front Desk Kiosk'' [] Absent
        = Inr (c1, fs1)
    \<and> notify_staff noon_later noon_later ''Payment'' ''English'' ''normal'' ''Front Desk Kiosk'' [] fs1
        = Inr (c2, fs2)
    \<and> ticket_number c2 = ''TKT-20240101120000''
    \<and> mark_notification_resolved noon_later (ticket_number c2) fs2 = Inr (res, fs3)
    \<and> success res
    \<and> load_notifications fs3 = Inr ns \<and> length ns = 2
    \<and> (ns ! 0) ''reason'' = Some ''Check-in'' \<and> (ns ! 0) ''status'' = Some ''resolved''
    \<and> (ns ! 1) ''reason'' = Some ''Payment''
    \<and> (ns ! 1) ''ticket_number'' = Some (ticket_number c2)
    \<and> (ns ! 1) ''status'' = Some ''pending''
    \<and> (ns ! 1) ''resolved_at'' = None
    \<and> get_staff_status fs3
        = Inr \<lparr>pending_count = 1, pending_tickets = [Some (ticket_number c2)]\<rparr>"
  by (simp add: notify_staff_eq [where old = "[]"] notify_staff_eq [where old = "[x]" for x]
        load_notifications_simps same_second stamp_noon
        mark_notification_resolved_def json_dump_def new_notification_fields
        get_staff_status_def get_pending_notifications_def)

subsection \<open>The status report\<close>

text \<open>
  Claim C8. \<^verbatim>\<open>get_staff_status\<close> reports the number of tickets of the store whose status
  is "pending", and at most five ticket numbers: those of the last (up to five) pending
  tickets in the order of the store, which is the order of filing.
\<close>

theorem staff_status_report:
  assumes "load_notifications fs = Inr ns"
  shows "\<exists>r. get_staff_status fs = Inr r
           \<and> pending_count r = card {i. i < length ns \<and> (ns ! i) ''status'' = Some ''pending''}
           \<and> length (pending_tickets r) = min 5 (pending_count r)
           \<and> suffix (pending_tickets r)
                (map (\<lambda>n. n ''ticket_number'') (filter (\<lambda>n. n ''status'' = Some ''pending'') ns))"
  using assms
  by (simp add: get_staff_status_def get_pending_notifications_def length_filter_conv_card
        suffix_drop flip: drop_map)

theorem staff_status_report_witness:
  "load_notifications (Stored [ticket_of check_in]) = Inr [ticket_of check_in]
   \<and> (\<exists>r. get_staff_status (Stored [ticket_of check_in]) = Inr r
         \<and> pending_count r = 1
         \<and> pending_tickets r = [Some ''TKT-20240101120000''])"
proof -
  have h: "load_notifications (Stored [ticket_of check_in]) = Inr [ticket_of check_in]"
    by (simp add: load_notifications_simps)
  from staff_status_report [OF h] obtain r where
    r: "get_staff_status (Stored [ticket_of check_in]) = Inr r" by blast
  then have "pending_count r = 1" "pending_tickets r = [Some ''TKT-20240101120000'']"
    by (auto simp: get_staff_status_def get_pending_notifications_def load_notifications_simps
          ticket_of_pending ticket_of_check_in_id)
  with h r show ?thesis by blast
qed

subsection \<open>The retention bound\<close>

lemma file_request_eq:
  "load_notifications fs = Inr old \<Longrightarrow>
   \<exists>c. file_request r fs
         = Inr (c, Stored (drop (Suc (length old) - 1000) (old @ [ticket_of r])))"
  by (simp add: file_request_def ticket_of_def notify_staff_eq)

lemma drop_drop_append:
  "k \<le> length xs \<Longrightarrow> drop m (drop k xs @ ys) = drop (m + k) (xs @ ys)"
  by simp

text \<open>
  Filing into a store of at most 1000 tickets: the store afterwards is the old tickets
  followed by the new ones, cut down to the last 1000.
\<close>

lemma file_tickets_load:
  "load_notifications fs = Inr ns \<Longrightarrow> length ns \<le> 1000 \<Longrightarrow>
   \<exists>fs'. file_tickets reqs fs = Inr fs'
      \<and> load_notifications fs'
          = Inr (drop (length ns + length reqs - 1000) (ns @ map ticket_of reqs))"
proof (induction reqs arbitrary: fs ns)
  case Nil
  then show ?case by simp
next
  case (Cons r rs)
  let ?k = "Suc (length ns) - 1000"
  let ?ns1 = "drop ?k (ns @ [ticket_of r])"
  from file_request_eq[OF Cons.prems(1), of r]
  obtain c where c: "file_request r fs = Inr (c, Stored ?ns1)" by blast
  have len: "length ?ns1 \<le> 1000" using Cons.prems(2) by simp
  have k: "?k \<le> length (ns @ [ticket_of r])" by simp
  from Cons.IH[of "Stored ?ns1" ?ns1, OF _ len]
  obtain fs' where fs': "file_tickets rs (Stored ?ns1) = Inr fs'"
    "load_notifications fs'
       = Inr (drop (length ?ns1 + length rs - 1000) (?ns1 @ map ticket_of rs))"
    by (auto simp: load_notifications_simps)
  have "drop (length ?ns1 + length rs - 1000) (?ns1 @ map ticket_of rs)
        = drop (length ?ns1 + length rs - 1000 + ?k) ((ns @ [ticket_of r]) @ map ticket_of rs)"
    by (rule drop_drop_append[OF k])
  also have "length ?ns1 + length rs - 1000 + ?k = length ns + length (r # rs) - 1000"
    using Cons.prems(2) by auto
  finally have "load_notifications fs'
       = Inr (drop (length ns + length (r # rs) - 1000) (ns @ map ticket_of (r # rs)))"
    using fs'(2) by simp
  with c fs'(1) show ?case by simp
qed

lemma filter_pending_tickets:
  "filter (\<lambda>n. n ''status'' = Some ''pending'') (drop k (map ticket_of reqs))
     = drop k (map ticket_of reqs)"
  by (rule filter_True) (auto dest!: in_set_dropD simp: ticket_of_pending)

text \<open>
  Claim C4. After any number of tickets has been filed into an empty store, the store
  holds the last 1000 of them (all of them when they are fewer) in the order of filing,
  and the pending count is at most 1000. After 1005 tickets the store holds exactly 1000:
  the first five are gone and the ticket at position \<open>i\<close> is the one filed as number
  \<open>i + 5\<close>, counting from 0.
\<close>

theorem retention_bound:
  "\<exists>fs' ns rep. file_tickets reqs Absent = Inr fs'
     \<and> load_notifications fs' = Inr ns
     \<and> ns = drop (length reqs - 1000) (map ticket_of reqs)
     \<and> length ns = min 1000 (length reqs)
     \<and> get_staff_status fs' = Inr rep \<and> pending_count rep \<le> 1000
     \<and> (length reqs = 1005 \<longrightarrow>
          length ns = 1000 \<and> ns = drop 5 (map ticket_of reqs)
          \<and> (\<forall>i<1000. ns ! i = ticket_of (reqs ! (i + 5))))"
proof -
  let ?ns = "drop (length reqs - 1000) (map ticket_of reqs)"
  from file_tickets_load[of Absent "[]" reqs]
  obtain fs' where fs': "file_tickets reqs Absent = Inr fs'" "load_notifications fs' = Inr ?ns"
    by (auto simp: load_notifications_simps)
  have len: "length ?ns = min 1000 (length reqs)" by auto
  let ?rep = "\<lparr>pending_count = length ?ns,
               pending_tickets = map (\<lambda>n. n ''ticket_number'') (drop (length ?ns - 5) ?ns)\<rparr>"
  have rep: "get_staff_status fs' = Inr ?rep"
    using fs'(2)
    by (simp only: get_staff_status_def get_pending_notifications_def sum.case
          filter_pending_tickets)
  have cnt: "pending_count ?rep \<le> 1000"
    by (simp only: status_report.simps len min.cobounded1)
  have late: "length reqs = 1005 \<longrightarrow>
          length ?ns = 1000 \<and> ?ns = drop 5 (map ticket_of reqs)
          \<and> (\<forall>i<1000. ?ns ! i = ticket_of (reqs ! (i + 5)))"
    by (auto simp: add.commute)
  from fs' len rep cnt late show ?thesis by blast
qed

theorem retention_bound_witness:
  "length (replicate 1005 check_in) = 1005
   \<and> (\<exists>fs' ns. file_tickets (replicate 1005 check_in) Absent = Inr fs'
         \<and> load_notifications fs' = Inr ns \<and> length ns = 1000
         \<and> ns = drop 5 (map ticket_of (replicate 1005 check_in)))"
proof -
  have h: "length (replicate 1005 check_in) = 1005" by (simp only: length_replicate)
  from retention_bound [of "replicate 1005 check_in"] h show ?thesis by blast
qed

text \<open>
  Claim C7. After \<open>N \<le> 1000\<close> tickets have been filed into an empty store and none
  has been resolved, the pending count that \<^verbatim>\<open>get_staff_status\<close> reports is \<open>N\<close>.
\<close>

theorem pending_count_after_filing:
  assumes "length reqs \<le> 1000"
  shows "\<exists>fs' rep. file_tickets reqs Absent = Inr fs'
           \<and> get_staff_status fs' = Inr rep \<and> pending_count rep = length reqs"
proof -
  from file_tickets_load[of Absent "[]" reqs] assms
  obtain fs' where fs': "file_tickets reqs Absent = Inr fs'"
      "load_notifications fs' = Inr (drop 0 (map ticket_of reqs))"
    by (auto simp: load_notifications_simps)
  have "get_staff_status fs'
      = Inr \<lparr>pending_count = length (drop 0 (map ticket_of reqs)),
             pending_tickets = map (\<lambda>n. n ''ticket_number'')
               (drop (length (drop 0 (map ticket_of reqs)) - 5) (drop 0 (map ticket_of reqs)))\<rparr>"
    using fs'(2)
    by (simp only: get_staff_status_def get_pending_notifications_def sum.case
          filter_pending_tickets)
  with fs'(1) show ?thesis by simp
qed

theorem pending_count_after_filing_witness:
  "length [check_in, check_in] \<le> 1000
   \<and> (\<exists>fs' rep. file_tickets [check_in, check_in] Absent = Inr fs'
         \<and> get_staff_status fs' = Inr rep \<and> pending_count rep = 2)"
proof -
  have h: "length [check_in, check_in] \<le> 1000" by simp
  from pending_count_after_filing [OF h] obtain fs' rep where
    r: "file_tickets [check_in, check_in] Absent = Inr fs'" "get_staff_status fs' = Inr rep"
       "pending_count rep = length [check_in, check_in]"
    by blast
  from r(3) have "pending_count rep = 2" by simp
  with h r(1,2) show ?thesis by blast
qed

subsection \<open>The life of a ticket\<close>

lemma lifecycle_new: "lifecycle_ok (new_notification tn ts r g p l a)"
  by (simp add: lifecycle_ok_def new_notification_fields)

lemma lifecycle_resolved:
  "lifecycle_ok (n(''status'' \<mapsto> ''resolved'', ''resolved_at'' \<mapsto> ts))"
  by (simp add: lifecycle_ok_def)

lemma reachable_lifecycle:
  "reachable fs \<Longrightarrow> \<exists>ns. load_notifications fs = Inr ns \<and> (\<forall>n\<in>set ns. lifecycle_ok n)"
proof (induction rule: reachable.induct)
  case (initial fs)
  then show ?case by simp
next
  case (filed fs now1 now2 reason guest_language priority location additional_info c fs')
  then obtain ns where ns: "load_notifications fs = Inr ns" "\<forall>n\<in>set ns. lifecycle_ok n"
    by blast
  let ?t = "new_notification (''TKT-'' @ strftime_YmdHMS now1) (get_timestamp now2)
              reason guest_language priority location additional_info"
  from filed.hyps(2) notify_staff_eq[OF ns(1)]
  have fs': "fs' = Stored (drop (Suc (length ns) - 1000) (ns @ [?t]))"
    by simp
  have "\<forall>n\<in>set (drop (Suc (length ns) - 1000) (ns @ [?t])). lifecycle_ok n"
    using ns(2) lifecycle_new by (auto dest!: in_set_dropD)
  with fs' show ?case by (simp add: load_notifications_simps)
next
  case (resolved fs now tn res fs')
  then obtain ns where ns: "load_notifications fs = Inr ns" "\<forall>n\<in>set ns. lifecycle_ok n"
    by blast
  from mark_notification_resolved_cases[OF ns(1) resolved.hyps(2)]
  show ?case
  proof
    assume "fs' = fs"
    with ns show ?thesis by blast
  next
    assume "\<exists>i<length ns. fs' = Stored (ns[i := (ns ! i)(''status'' \<mapsto> ''resolved'',
                                         ''resolved_at'' \<mapsto> get_timestamp now)])"
    then obtain i where i: "i < length ns"
      "fs' = Stored (ns[i := (ns ! i)(''status'' \<mapsto> ''resolved'',
                                         ''resolved_at'' \<mapsto> get_timestamp now)])"
      by blast
    have "\<forall>n\<in>set (ns[i := (ns ! i)(''status'' \<mapsto> ''resolved'',
                                         ''resolved_at'' \<mapsto> get_timestamp now)]). lifecycle_ok n"
      using ns(2) lifecycle_resolved by (auto dest!: set_update_subset_insert[THEN subsetD])
    with i(2) show ?thesis by (simp add: load_notifications_simps)
  qed
qed

lemma reachable_resolved_store: "reachable resolved_store"
proof -
  have "notify_staff noon noon ''Check-in'' ''Korean'' ''urgent'' ''Front Desk Kiosk'' [] Absent
      = Inr (\<lparr>success = True,
           message = ''Staff has been notified. Ticket number: '' @ ''TKT-'' @ strftime_YmdHMS noon,
           ticket_number = ''TKT-'' @ strftime_YmdHMS noon,
           estimated_response_time = ''1 minute''\<rparr>, Stored [ticket_of check_in])"
    by (simp add: notify_staff_eq[where old = "[]"] load_notifications_simps ticket_of_def
          check_in_def)
  from reachable.filed[OF reachable.initial this]
  have one: "reachable (Stored [ticket_of check_in])"
    by (simp add: load_notifications_simps)
  have "mark_notification_resolved noon_later ''TKT-20240101120000'' (Stored [ticket_of check_in])
      = Inr (\<lparr>success = True, message = ''Ticket '' @ ''TKT-20240101120000'' @ '' marked as resolved''\<rparr>,
             resolved_store)"
    by (simp add: mark_notification_resolved_def load_notifications_simps json_dump_def
          ticket_of_check_in_id resolved_store_def del: fun_upd_apply)
  from reachable.resolved[OF one this] show ?thesis .
qed

text \<open>
  Claim C3. In every state of the file that filing and resolving can reach from an empty
  history:
  every ticket is pending or resolved, and has a \<^verbatim>\<open>resolved_at\<close> exactly when it is
  resolved; filing keeps the tickets that stay in the store as they are and appends a
  pending ticket with no \<^verbatim>\<open>resolved_at\<close>; resolving keeps the length of the store and
  leaves the status of every ticket as it is, or takes it from pending to resolved. A
  resolved ticket therefore stays resolved, and the status of a ticket changes at most
  once.
\<close>

theorem status_lifecycle:
  assumes "reachable fs"
  shows "\<exists>ns. load_notifications fs = Inr ns
    \<and> (\<forall>n\<in>set ns.
          (n ''status'' = Some ''pending'' \<or> n ''status'' = Some ''resolved'')
          \<and> (n ''resolved_at'' \<noteq> None \<longleftrightarrow> n ''status'' = Some ''resolved''))
    \<and> (\<forall>now1 now2 reason guest_language priority location additional_info c fs'.
          notify_staff now1 now2 reason guest_language priority location additional_info fs
            = Inr (c, fs') \<longrightarrow>
          (\<exists>k t. load_notifications fs' = Inr (drop k (ns @ [t]))
             \<and> t ''status'' = Some ''pending'' \<and> t ''resolved_at'' = None))
    \<and> (\<forall>now tn res fs'.
          mark_notification_resolved now tn fs = Inr (res, fs') \<longrightarrow>
          (\<exists>ns'. load_notifications fs' = Inr ns' \<and> length ns' = length ns
             \<and> (\<forall>i<length ns.
                   (ns' ! i) ''status'' = (ns ! i) ''status''
                   \<or> (ns ! i) ''status'' = Some ''pending''
                      \<and> (ns' ! i) ''status'' = Some ''resolved'')))"
proof -
  from reachable_lifecycle[OF assms]
  obtain ns where ns: "load_notifications fs = Inr ns" "\<forall>n\<in>set ns. lifecycle_ok n"
    by blast
  have inv: "\<forall>n\<in>set ns.
          (n ''status'' = Some ''pending'' \<or> n ''status'' = Some ''resolved'')
          \<and> (n ''resolved_at'' \<noteq> None \<longleftrightarrow> n ''status'' = Some ''resolved'')"
    using ns(2) by (simp add: lifecycle_ok_def)
  have filing: "\<exists>k t. load_notifications fs' = Inr (drop k (ns @ [t]))
             \<and> t ''status'' = Some ''pending'' \<and> t ''resolved_at'' = None"
    if "notify_staff now1 now2 reason guest_language priority location additional_info fs
            = Inr (c, fs')"
    for now1 now2 reason guest_language priority location additional_info c fs'
  proof -
    let ?t = "new_notification (''TKT-'' @ strftime_YmdHMS now1) (get_timestamp now2)
              reason guest_language priority location additional_info"
    from that notify_staff_eq[OF ns(1)]
    have "fs' = Stored (drop (Suc (length ns) - 1000) (ns @ [?t]))" by simp
    then have "load_notifications fs' = Inr (drop (Suc (length ns) - 1000) (ns @ [?t]))"
      by (simp add: load_notifications_simps)
    moreover have "?t ''status'' = Some ''pending''" "?t ''resolved_at'' = None"
      by (simp_all add: new_notification_fields)
    ultimately show ?thesis by blast
  qed
  have resolving: "\<exists>ns'. load_notifications fs' = Inr ns' \<and> length ns' = length ns
             \<and> (\<forall>i<length ns.
                   (ns' ! i) ''status'' = (ns ! i) ''status''
                   \<or> (ns ! i) ''status'' = Some ''pending''
                      \<and> (ns' ! i) ''status'' = Some ''resolved'')"
    if "mark_notification_resolved now tn fs = Inr (res, fs')" for now tn res fs'
    using mark_notification_resolved_cases[OF ns(1) that]
  proof
    assume "fs' = fs"
    with ns(1) show ?thesis by simp
  next
    assume "\<exists>i<length ns. fs' = Stored (ns[i := (ns ! i)(''status'' \<mapsto> ''resolved'',
                                         ''resolved_at'' \<mapsto> get_timestamp now)])"
    then obtain i where i: "i < length ns"
      "fs' = Stored (ns[i := (ns ! i)(''status'' \<mapsto> ''resolved'',
                                         ''resolved_at'' \<mapsto> get_timestamp now)])"
      by blast
    let ?ns' = "ns[i := (ns ! i)(''status'' \<mapsto> ''resolved'',
                                         ''resolved_at'' \<mapsto> get_timestamp now)]"
    have "(ns ! i) ''status'' = Some ''pending'' \<or> (ns ! i) ''status'' = Some ''resolved''"
      using inv i(1) by simp
    then have "\<forall>j<length ns.
                   (?ns' ! j) ''status'' = (ns ! j) ''status''
                   \<or> (ns ! j) ''status'' = Some ''pending''
                      \<and> (?ns' ! j) ''status'' = Some ''resolved''"
      using i(1) by (auto simp: nth_list_update)
    moreover have "load_notifications fs' = Inr ?ns'"
      using i(2) by (simp add: load_notifications_simps)
    moreover have "length ?ns' = length ns" by simp
    ultimately show ?thesis by blast
  qed
  from ns(1) inv filing resolving show ?thesis by blast
qed

theorem status_lifecycle_witness:
  "reachable resolved_store
   \<and> (\<exists>ns. load_notifications resolved_store = Inr ns \<and> length ns = 1
         \<and> (ns ! 0) ''status'' = Some ''resolved''
         \<and> (ns ! 0) ''resolved_at'' \<noteq> None)"
proof -
  from status_lifecycle[OF reachable_resolved_store] obtain ns where
    ns: "load_notifications resolved_store = Inr ns"
        "\<forall>n\<in>set ns.
          (n ''status'' = Some ''pending'' \<or> n ''status'' = Some ''resolved'')
          \<and> (n ''resolved_at'' \<noteq> None \<longleftrightarrow> n ''status'' = Some ''resolved'')"
    by (elim exE conjE) (rule that; assumption)
  from ns(1) have len: "length ns = 1"
    and st: "(ns ! 0) ''status'' = Some ''resolved''"
    by (auto simp: resolved_store_def load_notifications_simps)
  from len have "ns ! 0 \<in> set ns" by simp
  with ns(2) have "(ns ! 0) ''resolved_at'' \<noteq> None \<longleftrightarrow> (ns ! 0) ''status'' = Some ''resolved''"
    by (rule_tac conjunct2) (erule bspec)
  with st have "(ns ! 0) ''resolved_at'' \<noteq> None" by (simp only:)
  with reachable_resolved_store ns(1) len st show ?thesis
    by (intro conjI exI[of _ ns])
qed

end
